theory Spec2Isabelle
  imports Main "HOL-Library.AList" "HOL-Library.Char_ord" "HOL-Library.List_Lexorder"
begin

section \<open>The hook manager of src/main.py\<close>

text \<open>
  The development embeds the class \<^verbatim>\<open>HookManager\<close> of \<^verbatim>\<open>src/main.py\<close>
  (lines 43 to 163) together with its three exception classes (lines 23 to 38).
  The Kivy user interface of the file never calls the hook manager and is left out.

  Python's object space is modelled as follows.
  \<^item> A module, a class or any other pre-existing object is a reference \<open>Obj r\<close>; its
    attribute dictionary is the association list \<open>heap s r\<close>, in insertion order.
    \<^verbatim>\<open>getattr\<close> is a lookup in that dictionary and raises \<^verbatim>\<open>AttributeError\<close> on a
    missing name; \<^verbatim>\<open>setattr\<close> is an update of it. Descriptors, inheritance and
    read-only types are not modelled.
  \<^item> The closure \<^verbatim>\<open>wrapped\<close> built by \<^verbatim>\<open>patch_print\<close> is the value
    \<open>Closure message original\<close>; a Python function object (what
    \<^verbatim>\<open>types.FunctionType\<close> builds) is \<open>FunctionType code globals name defaults closure\<close>.
    These two kinds of value have no attribute dictionary in the model: reading or
    writing an attribute through them raises \<^verbatim>\<open>AttributeError\<close>.
  \<^item> \<^verbatim>\<open>importlib.import_module\<close> is a parameter \<open>imp\<close> of every operation. It
    answers with a module, with \<^verbatim>\<open>ModuleNotFoundError\<close>, or with any other exception
    (CPython raises \<^verbatim>\<open>ValueError\<close> for the empty name, \<^verbatim>\<open>TypeError\<close> for a
    name that starts with a dot, and whatever the top-level code of a module raises).
    Imports are taken to leave the attribute dictionaries unchanged.
  \<^item> An operation returns its outcome together with the state it leaves behind, so that
    the effects an operation has before it raises stay visible.
\<close>

subsection \<open>Values, errors and state\<close>

type_synonym ref = nat
type_synonym name = string

datatype pyval =
    Obj ref
  | Str string
  | Closure string pyval
  | FunctionType pyval "(name \<times> pyval) list" string pyval pyval

text \<open>
  The exceptions the hook manager can end with. The first three are the subclasses of
  \<^verbatim>\<open>HookManagerError\<close>, each carrying the target it was raised for;
  \<open>OtherException\<close> is any other exception class, by name.
\<close>

datatype error =
    NotHookedError string
  | AlreadyHookedError string
  | NotPatchedError string
  | ModuleNotFoundError string
  | AttributeError
  | IndexError
  | OtherException string

text \<open>The field \<^verbatim>\<open>code\<close> that \<^verbatim>\<open>HookManagerError.__init__\<close> sets; other exceptions have none.\<close>

fun code :: "error \<Rightarrow> string option" where
  "code (NotHookedError target) = Some ''NotHooked''"
| "code (AlreadyHookedError target) = Some ''AlreadyHooked''"
| "code (NotPatchedError target) = Some ''NotPatched''"
| "code e = None"

datatype outcome = Returned | Raised error

datatype import_outcome = Module ref | ModuleNotFound | ImportRaises error

text \<open>
  The fields \<^verbatim>\<open>originals\<close> and \<^verbatim>\<open>hooked\<close> of the instance, and the parts of the
  process the methods touch: the attribute dictionaries, standard output and the
  module-level flag \<^verbatim>\<open>WrapperinitEnd\<close>. A key of \<^verbatim>\<open>originals\<close> is the pair of the
  module object and the tuple of attribute names.
\<close>

record state =
  originals :: "((ref \<times> name list) \<times> pyval) list"
  hooked :: "string set"
  heap :: "ref \<Rightarrow> (name \<times> pyval) list"
  stdout :: string
  WrapperinitEnd :: bool

subsection \<open>Strings\<close>

text \<open>\<^verbatim>\<open>str.split(sep)\<close> for a one-character separator: never an empty list.\<close>

fun split_go :: "char \<Rightarrow> string \<Rightarrow> string \<Rightarrow> string list" where
  "split_go sep cur [] = [rev cur]"
| "split_go sep cur (c # cs) =
     (if c = sep then rev cur # split_go sep [] cs else split_go sep (c # cur) cs)"

definition py_split :: "char \<Rightarrow> string \<Rightarrow> string list" where
  "py_split sep s = split_go sep [] s"

text \<open>\<^verbatim>\<open>sep.join(parts)\<close>.\<close>

fun py_join :: "string \<Rightarrow> string list \<Rightarrow> string" where
  "py_join sep [] = []"
| "py_join sep [p] = p"
| "py_join sep (p # q # ps) = p @ sep @ py_join sep (q # ps)"

text \<open>\<^verbatim>\<open>print(text)\<close> and \<^verbatim>\<open>print(text, end="")\<close>.\<close>

definition py_print :: "string \<Rightarrow> state \<Rightarrow> state" where
  "py_print text s = s\<lparr>stdout := stdout s @ text @ [CHR 0x0A]\<rparr>"

definition py_print_noend :: "string \<Rightarrow> state \<Rightarrow> state" where
  "py_print_noend text s = s\<lparr>stdout := stdout s @ text\<rparr>"

text \<open>\<^verbatim>\<open>HookManager._log\<close> (lines 70 to 71).\<close>

definition log :: "string \<Rightarrow> state \<Rightarrow> state" where
  "log msg s = py_print (''[HooksNotice] '' @ msg) s"

subsection \<open>Resolving a dotted path\<close>

text \<open>
  \<^verbatim>\<open>HookManager._resolve_target\<close> (lines 48 to 58). \<open>resolve_loop\<close> is the
  \<^verbatim>\<open>for i in range(len(parts), 0, -1)\<close> loop, its last argument the current \<open>i\<close>;
  only \<^verbatim>\<open>ModuleNotFoundError\<close> is caught, any other exception of the import leaves the
  method.
\<close>

fun resolve_loop ::
  "(string \<Rightarrow> import_outcome) \<Rightarrow> string \<Rightarrow> string list \<Rightarrow> nat \<Rightarrow> error + (ref \<times> name list)" where
  "resolve_loop imp target_path parts 0 =
     Inl (ModuleNotFoundError (''Cannot import module from '' @ target_path))"
| "resolve_loop imp target_path parts (Suc n) =
     (case imp (py_join ''.'' (take (Suc n) parts)) of
        Module module \<Rightarrow> Inr (module, drop (Suc n) parts)
      | ModuleNotFound \<Rightarrow> resolve_loop imp target_path parts n
      | ImportRaises e \<Rightarrow> Inl e)"

definition resolve_target ::
  "(string \<Rightarrow> import_outcome) \<Rightarrow> string \<Rightarrow> error + (ref \<times> name list)" where
  "resolve_target imp target_path =
     (let parts = py_split CHR ''.'' target_path
      in resolve_loop imp target_path parts (length parts))"

subsection \<open>Attribute access\<close>

text \<open>The built-ins \<^verbatim>\<open>getattr\<close> and \<^verbatim>\<open>setattr\<close> on the modelled object space.\<close>

fun getattr :: "(ref \<Rightarrow> (name \<times> pyval) list) \<Rightarrow> pyval \<Rightarrow> name \<Rightarrow> error + pyval" where
  "getattr h (Obj r) attr =
     (case map_of (h r) attr of None \<Rightarrow> Inl AttributeError | Some v \<Rightarrow> Inr v)"
| "getattr h obj attr = Inl AttributeError"

fun setattr ::
  "(ref \<Rightarrow> (name \<times> pyval) list) \<Rightarrow> pyval \<Rightarrow> name \<Rightarrow> pyval
     \<Rightarrow> error + (ref \<Rightarrow> (name \<times> pyval) list)" where
  "setattr h (Obj r) attr v = Inr (h(r := AList.update attr v (h r)))"
| "setattr h obj attr v = Inl AttributeError"

text \<open>\<^verbatim>\<open>HookManager._get_attr\<close> (lines 60 to 63).\<close>

fun get_attr :: "(ref \<Rightarrow> (name \<times> pyval) list) \<Rightarrow> pyval \<Rightarrow> name list \<Rightarrow> error + pyval" where
  "get_attr h obj [] = Inr obj"
| "get_attr h obj (attr # attr_path) =
     (case getattr h obj attr of Inl e \<Rightarrow> Inl e | Inr v \<Rightarrow> get_attr h v attr_path)"

text \<open>
  \<^verbatim>\<open>HookManager._set_attr\<close> (lines 65 to 68): the loop walks \<^verbatim>\<open>attr_path[:-1]\<close>,
  then \<^verbatim>\<open>attr_path[-1]\<close> raises \<^verbatim>\<open>IndexError\<close> on an empty path.
\<close>

definition set_attr ::
  "(ref \<Rightarrow> (name \<times> pyval) list) \<Rightarrow> pyval \<Rightarrow> name list \<Rightarrow> pyval
     \<Rightarrow> error + (ref \<Rightarrow> (name \<times> pyval) list)" where
  "set_attr h obj attr_path v =
     (case get_attr h obj (butlast attr_path) of
        Inl e \<Rightarrow> Inl e
      | Inr target \<Rightarrow>
          (if attr_path = [] then Inl IndexError else setattr h target (last attr_path) v))"

subsection \<open>The operations of the hook manager\<close>

text \<open>\<^verbatim>\<open>HookManager.hook\<close> (lines 73 to 80).\<close>

definition hook :: "(string \<Rightarrow> import_outcome) \<Rightarrow> string \<Rightarrow> state \<Rightarrow> outcome \<times> state" where
  "hook imp target_path s =
     (case resolve_target imp target_path of
        Inl e \<Rightarrow> (Raised e, s)
      | Inr (module, attr_path) \<Rightarrow>
          (if map_of (originals s) (module, attr_path) \<noteq> None
           then (Raised (AlreadyHookedError target_path), s)
           else (case get_attr (heap s) (Obj module) attr_path of
                   Inl e \<Rightarrow> (Raised e, s)
                 | Inr v \<Rightarrow>
                     (Returned,
                      log (''Hooked '' @ target_path)
                        (s\<lparr>originals := AList.update (module, attr_path) v (originals s),
                           hooked := insert target_path (hooked s)\<rparr>)))))"

text \<open>
  \<^verbatim>\<open>HookManager.patch_print\<close> (lines 82 to 95). The closure keeps the message and the
  stored original.
\<close>

definition patch_print ::
  "(string \<Rightarrow> import_outcome) \<Rightarrow> string \<Rightarrow> string \<Rightarrow> state \<Rightarrow> outcome \<times> state" where
  "patch_print imp target_path message s =
     (case resolve_target imp target_path of
        Inl e \<Rightarrow> (Raised e, s)
      | Inr (module, attr_path) \<Rightarrow>
          (case map_of (originals s) (module, attr_path) of
             None \<Rightarrow> (Raised (NotHookedError target_path), s)
           | Some original \<Rightarrow>
               (case set_attr (heap s) (Obj module) attr_path (Closure message original) of
                  Inl e \<Rightarrow> (Raised e, s)
                | Inr h \<Rightarrow>
                    (Returned,
                     log (''Patched '' @ py_join ''.'' attr_path @ '' with print wrapper.'')
                       (s\<lparr>heap := h\<rparr>)))))"

text \<open>
  \<^verbatim>\<open>dir(module)\<close>: the names of the attribute dictionary, sorted. The loop of
  \<^verbatim>\<open>patch_function\<close> (lines 112 to 122) copies every attribute whose name does not
  start with two underscores into \<^verbatim>\<open>func_globals\<close>, printing a dot for each and a
  line break after every thirtieth.
\<close>

definition py_dir :: "(ref \<Rightarrow> (name \<times> pyval) list) \<Rightarrow> ref \<Rightarrow> name list" where
  "py_dir h module = sort (remdups (map fst (h module)))"

fun symbol_loop ::
  "ref \<Rightarrow> name list \<Rightarrow> (name \<times> pyval) list \<Rightarrow> nat \<Rightarrow> state \<Rightarrow> (name \<times> pyval) list \<times> state" where
  "symbol_loop module [] func_globals symbol_count s = (func_globals, s)"
| "symbol_loop module (name # names) func_globals symbol_count s =
     (if take 2 name = ''__'' then symbol_loop module names func_globals symbol_count s
      else (case getattr (heap s) (Obj module) name of
              Inl e \<Rightarrow> symbol_loop module names func_globals symbol_count s
            | Inr attr \<Rightarrow>
                (let s1 = py_print_noend ''.'' s;
                     s2 = (if Suc symbol_count mod 30 = 0 then py_print [] s1 else s1)
                 in symbol_loop module names (AList.update name attr func_globals)
                      (Suc symbol_count) s2)))"

text \<open>
  \<^verbatim>\<open>HookManager.patch_function\<close> (lines 97 to 134). \<^verbatim>\<open>func.__globals__\<close> exists on
  a Python function object only; \<^verbatim>\<open>time.sleep(1)\<close> changes nothing that is modelled.
\<close>

definition patch_function ::
  "(string \<Rightarrow> import_outcome) \<Rightarrow> string \<Rightarrow> pyval \<Rightarrow> state \<Rightarrow> outcome \<times> state" where
  "patch_function imp target_path func s =
     (case resolve_target imp target_path of
        Inl e \<Rightarrow> (Raised e, s)
      | Inr (module, attr_path) \<Rightarrow>
          (if map_of (originals s) (module, attr_path) = None
           then (Raised (NotHookedError target_path), s)
           else
             (let s1 = log (''Preparing wrapper for '' @ py_join ''.'' attr_path @ '':'') s;
                  s2 = py_print ''[Loader] MLoader Modded V1.0'' s1;
                  s3 = py_print ''[Loader] MLoader -> Modest 1.0'' s2
              in (case func of
                    FunctionType fcode fglobals fname fdefaults fclosure \<Rightarrow>
                      (case symbol_loop module (py_dir (heap s3) module) fglobals 0 s3 of
                         (func_globals, s4) \<Rightarrow>
                           (case set_attr (heap s4) (Obj module) attr_path
                                   (FunctionType fcode func_globals fname fdefaults fclosure) of
                              Inl e \<Rightarrow> (Raised e, s4)
                            | Inr h \<Rightarrow>
                                (Returned,
                                 (py_print (CHR 0x0A # ''[HooksNotice] Wrapper is ready and patched.'')
                                    (s4\<lparr>heap := h\<rparr>))\<lparr>WrapperinitEnd := True\<rparr>)))
                  | _ \<Rightarrow> (Raised AttributeError, s3)))))"

text \<open>
  \<^verbatim>\<open>HookManager.restore\<close> (lines 136 to 145). The argument
  \<^verbatim>\<open>self.originals.pop(key)\<close> is evaluated before \<^verbatim>\<open>_set_attr\<close> is entered, so
  the record is gone when \<^verbatim>\<open>_set_attr\<close> raises.
\<close>

definition restore :: "(string \<Rightarrow> import_outcome) \<Rightarrow> string \<Rightarrow> state \<Rightarrow> outcome \<times> state" where
  "restore imp target_path s =
     (case resolve_target imp target_path of
        Inl e \<Rightarrow> (Raised e, s)
      | Inr (module, attr_path) \<Rightarrow>
          (case map_of (originals s) (module, attr_path) of
             None \<Rightarrow> (Raised (NotHookedError target_path), s)
           | Some original \<Rightarrow>
               (let s1 = s\<lparr>originals := AList.delete (module, attr_path) (originals s)\<rparr>
                in (case set_attr (heap s1) (Obj module) attr_path original of
                      Inl e \<Rightarrow> (Raised e, s1)
                    | Inr h \<Rightarrow>
                        (Returned,
                         log (''Restored '' @ target_path)
                           (s1\<lparr>heap := h, hooked := hooked s1 - {target_path}\<rparr>))))))"

text \<open>\<^verbatim>\<open>HookManager.unhook_target\<close> (lines 147 to 154).\<close>

definition unhook_target ::
  "(string \<Rightarrow> import_outcome) \<Rightarrow> string \<Rightarrow> state \<Rightarrow> outcome \<times> state" where
  "unhook_target imp target_path s =
     (case resolve_target imp target_path of
        Inl e \<Rightarrow> (Raised e, s)
      | Inr (module, attr_path) \<Rightarrow>
          (if map_of (originals s) (module, attr_path) = None
           then (Raised (NotHookedError target_path), s)
           else (Returned,
                 log (''Unhooked '' @ target_path @ '' (function left modified)'')
                   (s\<lparr>originals := AList.delete (module, attr_path) (originals s),
                      hooked := hooked s - {target_path}\<rparr>))))"

text \<open>
  What an f-string shows for a value. For a string it is the string itself; for the other
  kinds of value Python prints a description with a memory address, which is left out.
\<close>

fun py_str :: "pyval \<Rightarrow> string" where
  "py_str (Str text) = text"
| "py_str (Obj r) = ''<object>''"
| "py_str (Closure message original) = ''<function wrapped>''"
| "py_str (FunctionType fcode fglobals fname fdefaults fclosure) = ''<function '' @ fname @ ''>''"

text \<open>
  \<^verbatim>\<open>HookManager.unhook\<close> (lines 156 to 163). \<open>unhook_loop\<close> is the loop over
  \<^verbatim>\<open>self.originals.items()\<close>: it reads \<^verbatim>\<open>module.__name__\<close> and prints a notice,
  and does nothing with the stored value.
\<close>

fun unhook_loop :: "((ref \<times> name list) \<times> pyval) list \<Rightarrow> state \<Rightarrow> outcome \<times> state" where
  "unhook_loop [] s = (Returned, s)"
| "unhook_loop (((module, attr_path), original) # items) s =
     (case getattr (heap s) (Obj module) ''__name__'' of
        Inl e \<Rightarrow> (Raised e, s)
      | Inr module_name \<Rightarrow>
          unhook_loop items
            (log (''Unhooked '' @ py_str module_name @ ''.'' @ py_join ''.'' attr_path) s))"

definition unhook :: "state \<Rightarrow> outcome \<times> state" where
  "unhook s =
     (if originals s = [] then (Raised (NotPatchedError ''No hooks to remove.''), s)
      else (case unhook_loop (originals s) s of
              (Raised e, s1) \<Rightarrow> (Raised e, s1)
            | (Returned, s1) \<Rightarrow>
                (Returned, log ''Unhooked all'' (s1\<lparr>originals := [], hooked := {}\<rparr>))))"

subsection \<open>Sequences of calls\<close>

datatype op =
    Hook string
  | PatchPrint string string
  | PatchFunction string pyval
  | Restore string
  | UnhookTarget string
  | Unhook

fun exec :: "(string \<Rightarrow> import_outcome) \<Rightarrow> op \<Rightarrow> state \<Rightarrow> outcome \<times> state" where
  "exec imp (Hook target_path) s = hook imp target_path s"
| "exec imp (PatchPrint target_path message) s = patch_print imp target_path message s"
| "exec imp (PatchFunction target_path func) s = patch_function imp target_path func s"
| "exec imp (Restore target_path) s = restore imp target_path s"
| "exec imp (UnhookTarget target_path) s = unhook_target imp target_path s"
| "exec imp Unhook s = unhook s"

text \<open>
  A caller that makes the calls one after the other and goes on after an exception:
  the state a failed call leaves is the state the next call starts from.
\<close>

fun run :: "(string \<Rightarrow> import_outcome) \<Rightarrow> op list \<Rightarrow> state \<Rightarrow> state" where
  "run imp [] s = s"
| "run imp (c # cs) s = run imp cs (snd (exec imp c s))"

fun is_patch :: "op \<Rightarrow> bool" where
  "is_patch (PatchPrint target_path message) = True"
| "is_patch (PatchFunction target_path func) = True"
| "is_patch c = False"

subsection \<open>Calling a value\<close>



subsection \<open>Auxiliary notions for the statements\<close>

text \<open>The calls that remove no record: \<^verbatim>\<open>hook\<close> and the two patches.\<close>

fun keeps_records :: "op \<Rightarrow> bool" where
  "keeps_records (Restore target_path) = False"
| "keeps_records (UnhookTarget target_path) = False"
| "keeps_records Unhook = False"
| "keeps_records c = True"

text \<open>
  A patch call whose path resolves to a given key, and a sequence of calls each of which
  returns.
\<close>

fun patches_key :: "(string \<Rightarrow> import_outcome) \<Rightarrow> ref \<times> name list \<Rightarrow> op \<Rightarrow> bool" where
  "patches_key imp key (PatchPrint target_path message) = (resolve_target imp target_path = Inr key)"
| "patches_key imp key (PatchFunction target_path func) = (resolve_target imp target_path = Inr key)"
| "patches_key imp key c = False"

fun all_returned :: "(string \<Rightarrow> import_outcome) \<Rightarrow> op list \<Rightarrow> state \<Rightarrow> bool" where
  "all_returned imp [] s = True"
| "all_returned imp (c # cs) s =
     (fst (exec imp c s) = Returned \<and> all_returned imp cs (snd (exec imp c s)))"

text \<open>A module name is importable when the import answers with a module.\<close>

definition importable :: "(string \<Rightarrow> import_outcome) \<Rightarrow> string \<Rightarrow> bool" where
  "importable imp nm = (case imp nm of Module module \<Rightarrow> True | _ \<Rightarrow> False)"

subsection \<open>A small process to evaluate the operations on\<close>

text \<open>
  Three modules as a CPython process on Linux has them: \<^verbatim>\<open>os\<close> (object 2),
  \<^verbatim>\<open>os.path\<close>, which is the module object \<^verbatim>\<open>posixpath\<close> under a second name
  (object 3), and \<^verbatim>\<open>asyncio\<close> (object 4), whose submodule
  \<^verbatim>\<open>asyncio.windows_events\<close> raises \<^verbatim>\<open>ImportError\<close> from its top-level code.
  \<^verbatim>\<open>importlib.import_module\<close> raises \<^verbatim>\<open>ValueError\<close> for the empty name. Objects 10
  and 11 are the functions \<^verbatim>\<open>os.getcwd\<close> and \<^verbatim>\<open>posixpath.join\<close>.
\<close>

definition demo_import :: "string \<Rightarrow> import_outcome" where
  "demo_import nm =
     (if nm = ''os'' then Module 2
      else if nm = ''os.path'' \<or> nm = ''posixpath'' then Module 3
      else if nm = ''asyncio'' then Module 4
      else if nm = ''asyncio.windows_events'' then ImportRaises (OtherException ''ImportError'')
      else if nm = [] then ImportRaises (OtherException ''ValueError'')
      else ModuleNotFound)"

definition demo_heap :: "ref \<Rightarrow> (name \<times> pyval) list" where
  "demo_heap r =
     (if r = 2 then [(''__name__'', Str ''os''), (''path'', Obj 3), (''getcwd'', Obj 10)]
      else if r = 3 then [(''__name__'', Str ''posixpath''), (''join'', Obj 11)]
      else if r = 4 then [(''__name__'', Str ''asyncio'')]
      else [])"

text \<open>A fresh \<^verbatim>\<open>HookManager()\<close> in that process, and three states reached from it.\<close>

definition demo_state :: state where
  "demo_state =
     \<lparr>originals = [], hooked = {}, heap = demo_heap, stdout = [], WrapperinitEnd = False\<rparr>"

definition demo_hooked :: state where
  "demo_hooked = snd (hook demo_import ''os.path.join'' demo_state)"

definition demo_patched :: state where
  "demo_patched = snd (patch_print demo_import ''os.path.join'' ''hi'' demo_hooked)"


section \<open>Lemmas about the operations\<close>

subsection \<open>The loop of the resolver\<close>


lemma resolve_loop_not_found:
  "(\<forall>j. 0 < j \<and> j \<le> n \<longrightarrow> imp (py_join ''.'' (take j parts)) = ModuleNotFound) \<Longrightarrow>
   resolve_loop imp target_path parts n =
     Inl (ModuleNotFoundError (''Cannot import module from '' @ target_path))"
  by (induction n) simp_all

subsection \<open>What printing and the patches leave alone\<close>

lemma log_fields [simp]:
  "originals (log msg s) = originals s" "hooked (log msg s) = hooked s"
  "heap (log msg s) = heap s" "WrapperinitEnd (log msg s) = WrapperinitEnd s"
  by (simp_all add: log_def py_print_def)

lemma py_print_fields [simp]:
  "originals (py_print msg s) = originals s" "hooked (py_print msg s) = hooked s"
  "heap (py_print msg s) = heap s" "WrapperinitEnd (py_print msg s) = WrapperinitEnd s"
  by (simp_all add: py_print_def)

lemma py_print_noend_fields [simp]:
  "originals (py_print_noend msg s) = originals s" "hooked (py_print_noend msg s) = hooked s"
  "heap (py_print_noend msg s) = heap s"
  "WrapperinitEnd (py_print_noend msg s) = WrapperinitEnd s"
  by (simp_all add: py_print_noend_def)

lemma map_of_delete_same: "map_of (AList.delete k al) k = None"
  by (simp add: AList.delete_conv')

lemma hook_keeps_record:
  assumes "map_of (originals s) key = Some v"
  shows "map_of (originals (snd (hook imp target_path s))) key = Some v"
proof (cases "resolve_target imp target_path")
  case (Inl e)
  with assms show ?thesis by (simp add: hook_def)
next
  case (Inr p)
  obtain module attr_path where p: "p = (module, attr_path)" by (cases p)
  show ?thesis
  proof (cases "map_of (originals s) (module, attr_path)")
    case None
    with assms have "key \<noteq> (module, attr_path)" by auto
    with assms Inr p None show ?thesis
      by (cases "get_attr (heap s) (Obj module) attr_path")
        (simp_all add: hook_def AList.update_conv')
  next
    case (Some a)
    with assms Inr p show ?thesis by (simp add: hook_def)
  qed
qed

lemma patch_print_keeps:
  "originals (snd (patch_print imp target_path message s)) = originals s
   \<and> hooked (snd (patch_print imp target_path message s)) = hooked s"
  by (simp add: patch_print_def split: sum.split prod.split option.split)

lemma symbol_loop_keeps:
  "originals (snd (symbol_loop module names func_globals symbol_count s)) = originals s
   \<and> hooked (snd (symbol_loop module names func_globals symbol_count s)) = hooked s
   \<and> heap (snd (symbol_loop module names func_globals symbol_count s)) = heap s
   \<and> WrapperinitEnd (snd (symbol_loop module names func_globals symbol_count s)) = WrapperinitEnd s"
  by (induction names arbitrary: func_globals symbol_count s)
    (simp_all add: Let_def split: sum.split)

lemma symbol_loop_keeps':
  "symbol_loop module names func_globals symbol_count s = (g, s') \<Longrightarrow>
   originals s' = originals s \<and> hooked s' = hooked s \<and> heap s' = heap s
   \<and> WrapperinitEnd s' = WrapperinitEnd s"
  using symbol_loop_keeps [of module names func_globals symbol_count s] by simp

lemma patch_function_keeps:
  "originals (snd (patch_function imp target_path func s)) = originals s
   \<and> hooked (snd (patch_function imp target_path func s)) = hooked s"
proof (cases "resolve_target imp target_path")
  case (Inl e)
  then show ?thesis by (simp add: patch_function_def)
next
  case (Inr p)
  obtain module attr_path where p: "p = (module, attr_path)" by (cases p)
  show ?thesis
  proof (cases func)
    case (FunctionType fcode fglobals fname fdefaults fclosure)
    with Inr p show ?thesis
      apply (simp add: patch_function_def Let_def split: prod.split sum.split)
      apply (intro allI impI conjI)
      apply (drule symbol_loop_keeps', simp)+
      done
  qed (simp_all add: patch_function_def Inr p)
qed

lemma exec_keeps_record:
  "keeps_records c \<Longrightarrow> map_of (originals s) key = Some v \<Longrightarrow>
   map_of (originals (snd (exec imp c s))) key = Some v"
  by (cases c) (simp_all add: hook_keeps_record patch_print_keeps patch_function_keeps)

lemma run_keeps_record:
  "\<forall>c \<in> set cs. keeps_records c \<Longrightarrow> map_of (originals s) key = Some v \<Longrightarrow>
   map_of (originals (run imp cs s)) key = Some v"
  by (induction cs arbitrary: s) (simp_all add: exec_keeps_record)

lemma hook_Returned_record:
  assumes "hook imp target_path s = (Returned, s1)"
  shows "\<exists>module attr_path v. resolve_target imp target_path = Inr (module, attr_path)
     \<and> get_attr (heap s) (Obj module) attr_path = Inr v
     \<and> map_of (originals s) (module, attr_path) = None
     \<and> map_of (originals s1) (module, attr_path) = Some v
     \<and> target_path \<in> hooked s1"
proof (cases "resolve_target imp target_path")
  case (Inl e)
  with assms show ?thesis by (simp add: hook_def)
next
  case (Inr p)
  obtain module attr_path where p: "p = (module, attr_path)" by (cases p)
  show ?thesis
  proof (cases "map_of (originals s) (module, attr_path)")
    case None
    show ?thesis
    proof (cases "get_attr (heap s) (Obj module) attr_path")
      case (Inl e)
      with assms Inr p None show ?thesis by (simp add: hook_def)
    next
      case (Inr v)
      with assms \<open>resolve_target imp target_path = Inr p\<close> p None
      have "s1 = log (''Hooked '' @ target_path)
                   (s\<lparr>originals := AList.update (module, attr_path) v (originals s),
                      hooked := insert target_path (hooked s)\<rparr>)"
        by (simp add: hook_def)
      with Inr \<open>resolve_target imp target_path = Inr p\<close> p None show ?thesis
        by (simp add: AList.update_conv')
    qed
  next
    case (Some a)
    with assms Inr p show ?thesis by (simp add: hook_def)
  qed
qed

subsection \<open>The loop of \<^verbatim>\<open>unhook\<close>\<close>

lemma unhook_loop_frame:
  "heap (snd (unhook_loop items s)) = heap s
   \<and> originals (snd (unhook_loop items s)) = originals s
   \<and> hooked (snd (unhook_loop items s)) = hooked s
   \<and> (fst (unhook_loop items s) = Returned \<or> fst (unhook_loop items s) = Raised AttributeError)"
proof (induction items arbitrary: s)
  case Nil
  then show ?case by simp
next
  case (Cons item items)
  obtain module attr_path original where i: "item = ((module, attr_path), original)"
    by (cases item) auto
  show ?case
  proof (cases "map_of (heap s module) ''__name__''")
    case None
    with i show ?thesis by simp
  next
    case (Some nm)
    with i Cons.IH [of "log (''Unhooked '' @ py_str nm @ ''.'' @ py_join ''.'' attr_path) s"]
    show ?thesis by simp
  qed
qed

lemma unhook_loop_Returned:
  "\<forall>item \<in> set items. map_of (heap s (fst (fst item))) ''__name__'' \<noteq> None \<Longrightarrow>
   fst (unhook_loop items s) = Returned"
proof (induction items arbitrary: s)
  case Nil
  then show ?case by simp
next
  case (Cons item items)
  obtain module attr_path original where i: "item = ((module, attr_path), original)"
    by (cases item) auto
  from Cons.prems i obtain nm where
    n: "map_of (heap s module) ''__name__'' = Some nm" by auto
  from Cons.prems have "\<forall>item \<in> set items.
      map_of (heap (log (''Unhooked '' @ py_str nm @ ''.'' @ py_join ''.'' attr_path) s)
        (fst (fst item))) ''__name__'' \<noteq> None"
    by simp
  from Cons.IH [OF this] i n show ?case by simp
qed

subsection \<open>Reading an attribute after writing it\<close>

lemma getattr_after_write:
  "getattr (h(r := AList.update l x (h r))) (Obj q) a =
     (if q = r \<and> a = l then Inr x else getattr h (Obj q) a)"
  by (simp add: AList.update_conv')

lemma getattr_Inr_Obj: "getattr h obj a = Inr v \<Longrightarrow> \<exists>q. obj = Obj q"
  by (cases obj) simp_all

lemma get_attr_append:
  "get_attr h obj (xs @ ys) =
     (case get_attr h obj xs of Inl e \<Rightarrow> Inl e | Inr v \<Rightarrow> get_attr h v ys)"
  by (induction xs arbitrary: obj) (simp_all split: sum.split)

lemma get_attr_from_wrapper:
  "\<forall>q. x \<noteq> Obj q \<Longrightarrow> get_attr h x path = Inr (Obj r') \<Longrightarrow> False"
  by (cases path; cases x) simp_all

text \<open>
  A write of a value that is not an object cannot redirect the walk to the written
  attribute: where the walk reads the written attribute itself, it stops with an error.
\<close>

lemma walk_after_write:
  assumes "\<forall>q. x \<noteq> Obj q" and h': "h' = h(r := AList.update l x (h r))"
  shows "get_attr h obj pre = Inr (Obj r0) \<Longrightarrow> get_attr h' obj pre = Inr (Obj r') \<Longrightarrow> r' = r0"
proof (induction pre arbitrary: obj)
  case Nil
  then show ?case by simp
next
  case (Cons a pre)
  from Cons.prems(1) obtain v where v: "getattr h obj a = Inr v" "get_attr h v pre = Inr (Obj r0)"
    by (auto split: sum.splits)
  from v(1) obtain q where q: "obj = Obj q" using getattr_Inr_Obj by blast
  from Cons.prems(2) obtain v' where
    v': "getattr h' obj a = Inr v'" "get_attr h' v' pre = Inr (Obj r')"
    by (auto split: sum.splits)
  have w: "getattr h' (Obj q) a = (if q = r \<and> a = l then Inr x else getattr h (Obj q) a)"
    unfolding h' by (rule getattr_after_write)
  show ?case
  proof (cases "q = r \<and> a = l")
    case True
    with w v'(1) q have "v' = x" by simp
    with v'(2) assms(1) show ?thesis using get_attr_from_wrapper by blast
  next
    case False
    with w v'(1) v(1) q have "v' = v" by simp
    with v'(2) Cons.IH v(2) show ?thesis by blast
  qed
qed

lemma set_attr_Inr:
  assumes "set_attr h obj path x = Inr h'"
  shows "\<exists>r. path \<noteq> [] \<and> get_attr h obj (butlast path) = Inr (Obj r)
           \<and> h' = h(r := AList.update (last path) x (h r))"
proof (cases "get_attr h obj (butlast path)")
  case (Inl e)
  with assms show ?thesis by (simp add: set_attr_def)
next
  case (Inr target)
  with assms have ne: "path \<noteq> []" and s: "setattr h target (last path) x = Inr h'"
    by (auto simp: set_attr_def split: if_splits)
  from s obtain r where "target = Obj r" by (cases target) simp_all
  with s Inr ne show ?thesis by auto
qed


subsection \<open>A round of patches on one attribute\<close>

lemma get_attr_cong:
  "\<forall>q a. map_of (h q) a = map_of (h' q) a \<Longrightarrow> get_attr h obj path = get_attr h' obj path"
proof (induction path arbitrary: obj)
  case Nil
  then show ?case by simp
next
  case (Cons a path)
  from Cons.prems have "getattr h obj a = getattr h' obj a" by (cases obj) simp_all
  with Cons show ?case by (simp split: sum.split)
qed

lemma same_value_write:
  "map_of (h0 r) l = Some v \<Longrightarrow>
   map_of ((h0(r := AList.update l v (h0 r))) q) a = map_of (h0 q) a"
  by (auto simp: AList.update_conv')

text \<open>
  Writing \<open>y\<close> along the path into a heap that is \<open>h0\<close> with the attribute \<open>l\<close> of
  \<open>r\<close> overwritten gives \<open>h0\<close> with that attribute overwritten by \<open>y\<close>.
\<close>

lemma set_attr_step:
  assumes heq: "\<forall>q a. map_of (h q) a = map_of ((h0(r := AList.update l x (h0 r))) q) a"
    and x: "x = v \<or> (\<forall>q. x \<noteq> Obj q)"
    and walk0: "get_attr h0 obj pre = Inr (Obj r)"
    and v0: "map_of (h0 r) l = Some v"
    and set: "set_attr h obj (pre @ [l]) y = Inr h'"
  shows "\<forall>q a. map_of (h' q) a = map_of ((h0(r := AList.update l y (h0 r))) q) a"
proof -
  from set obtain r' where w: "get_attr h obj pre = Inr (Obj r')"
    and h': "h' = h(r' := AList.update l y (h r'))"
    using set_attr_Inr [of h obj "pre @ [l]" y h'] by auto
  define hx where "hx = h0(r := AList.update l x (h0 r))"
  from heq have c: "get_attr h obj pre = get_attr hx obj pre"
    unfolding hx_def by (rule get_attr_cong)
  have "r' = r"
  proof (cases "x = v")
    case True
    have "\<forall>q a. map_of (hx q) a = map_of (h0 q) a"
      unfolding hx_def True using v0 by (auto simp: AList.update_conv')
    then have "get_attr hx obj pre = get_attr h0 obj pre" by (rule get_attr_cong)
    with c w walk0 show ?thesis by simp
  next
    case False
    with x have nx: "\<forall>q. x \<noteq> Obj q" by simp
    from c w have "get_attr hx obj pre = Inr (Obj r')" by simp
    with walk_after_write [OF nx hx_def walk0] show ?thesis by blast
  qed
  with h' heq show ?thesis by (auto simp: AList.update_conv')
qed


lemma patch_print_Returned:
  assumes "resolve_target imp target_path = Inr (module, attr_path)"
    and "fst (patch_print imp target_path message s) = Returned"
  shows "\<exists>original h. map_of (originals s) (module, attr_path) = Some original
     \<and> set_attr (heap s) (Obj module) attr_path (Closure message original) = Inr h
     \<and> heap (snd (patch_print imp target_path message s)) = h"
proof (cases "map_of (originals s) (module, attr_path)")
  case None
  with assms show ?thesis by (simp add: patch_print_def)
next
  case (Some original)
  with assms show ?thesis
    by (cases "set_attr (heap s) (Obj module) attr_path (Closure message original)")
      (simp_all add: patch_print_def)
qed

lemma patch_function_Returned:
  assumes "resolve_target imp target_path = Inr (module, attr_path)"
    and "fst (patch_function imp target_path func s) = Returned"
  shows "\<exists>y h. (\<forall>q. y \<noteq> Obj q)
     \<and> set_attr (heap s) (Obj module) attr_path y = Inr h
     \<and> heap (snd (patch_function imp target_path func s)) = h"
proof (cases "map_of (originals s) (module, attr_path)")
  case None
  with assms show ?thesis by (simp add: patch_function_def)
next
  case (Some original)
  show ?thesis
  proof (cases func)
    case (FunctionType fcode fglobals fname fdefaults fclosure)
    define s3 where "s3 =
      py_print ''[Loader] MLoader -> Modest 1.0''
        (py_print ''[Loader] MLoader Modded V1.0''
          (log (''Preparing wrapper for '' @ py_join ''.'' attr_path @ '':'') s))"
    obtain g s4 where l: "symbol_loop module (py_dir (heap s3) module) fglobals 0 s3 = (g, s4)"
      by (cases "symbol_loop module (py_dir (heap s3) module) fglobals 0 s3")
    from symbol_loop_keeps' [OF l] have h4: "heap s4 = heap s" by (simp add: s3_def)
    have pf: "patch_function imp target_path func s =
      (case set_attr (heap s4) (Obj module) attr_path
              (FunctionType fcode g fname fdefaults fclosure) of
         Inl e \<Rightarrow> (Raised e, s4)
       | Inr h \<Rightarrow>
           (Returned,
            (py_print (CHR 0x0A # ''[HooksNotice] Wrapper is ready and patched.'')
               (s4\<lparr>heap := h\<rparr>))\<lparr>WrapperinitEnd := True\<rparr>))"
      using assms(1) Some FunctionType l
      unfolding patch_function_def Let_def s3_def by simp
    show ?thesis
    proof (cases "set_attr (heap s4) (Obj module) attr_path
              (FunctionType fcode g fname fdefaults fclosure)")
      case (Inl e)
      with pf assms(2) show ?thesis by simp
    next
      case (Inr h)
      with pf h4 have "set_attr (heap s) (Obj module) attr_path
              (FunctionType fcode g fname fdefaults fclosure) = Inr h
          \<and> heap (snd (patch_function imp target_path func s)) = h"
        by simp
      then show ?thesis by blast
    qed
  next
    case (Obj x1)
    with assms Some show ?thesis by (simp add: patch_function_def)
  next
    case (Str x2)
    with assms Some show ?thesis by (simp add: patch_function_def)
  next
    case (Closure x31 x32)
    with assms Some show ?thesis by (simp add: patch_function_def)
  qed
qed

lemma patch_step:
  assumes pk: "patches_key imp (module, pre @ [l]) c"
    and ret: "fst (exec imp c t) = Returned"
    and heq: "\<forall>q a. map_of (heap t q) a = map_of ((h0(r := AList.update l x (h0 r))) q) a"
    and x: "x = v \<or> (\<forall>q. x \<noteq> Obj q)"
    and walk0: "get_attr h0 (Obj module) pre = Inr (Obj r)"
    and v0: "map_of (h0 r) l = Some v"
  shows "\<exists>y. (\<forall>q. y \<noteq> Obj q)
     \<and> (\<forall>q a. map_of (heap (snd (exec imp c t)) q) a =
                map_of ((h0(r := AList.update l y (h0 r))) q) a)"
proof -
  have "\<exists>y h. (\<forall>q. y \<noteq> Obj q)
     \<and> set_attr (heap t) (Obj module) (pre @ [l]) y = Inr h
     \<and> heap (snd (exec imp c t)) = h"
  proof (cases c)
    case (PatchPrint target_path message)
    with pk ret patch_print_Returned [of imp target_path module "pre @ [l]" message t]
    obtain original h where
      "set_attr (heap t) (Obj module) (pre @ [l]) (Closure message original) = Inr h"
      "heap (snd (exec imp c t)) = h"
      by auto
    then show ?thesis by blast
  next
    case (PatchFunction target_path func)
    with pk ret patch_function_Returned [of imp target_path module "pre @ [l]" func t]
    show ?thesis by simp
  qed (use pk in simp_all)
  then obtain y h where y: "\<forall>q. y \<noteq> Obj q"
    and set: "set_attr (heap t) (Obj module) (pre @ [l]) y = Inr h"
    and hh: "heap (snd (exec imp c t)) = h"
    by blast
  from set_attr_step [OF heq x walk0 v0 set] hh y show ?thesis by blast
qed

lemma patch_keeps_store:
  "patches_key imp key c \<Longrightarrow>
   originals (snd (exec imp c t)) = originals t \<and> hooked (snd (exec imp c t)) = hooked t"
  by (cases c) (simp_all add: patch_print_keeps patch_function_keeps)

lemma patches_run:
  assumes walk0: "get_attr h0 (Obj module) pre = Inr (Obj r)"
    and v0: "map_of (h0 r) l = Some v"
  shows "\<forall>c \<in> set cs. patches_key imp (module, pre @ [l]) c \<Longrightarrow> all_returned imp cs t \<Longrightarrow>
    x = v \<or> (\<forall>q. x \<noteq> Obj q) \<Longrightarrow>
    \<forall>q a. map_of (heap t q) a = map_of ((h0(r := AList.update l x (h0 r))) q) a \<Longrightarrow>
    originals (run imp cs t) = originals t \<and> hooked (run imp cs t) = hooked t
    \<and> (\<exists>y. (y = v \<or> (\<forall>q. y \<noteq> Obj q))
         \<and> (\<forall>q a. map_of (heap (run imp cs t) q) a =
                    map_of ((h0(r := AList.update l y (h0 r))) q) a))"
proof (induction cs arbitrary: t x)
  case Nil
  then show ?case by auto
next
  case (Cons c cs)
  from Cons.prems have pk: "patches_key imp (module, pre @ [l]) c"
    and ret: "fst (exec imp c t) = Returned"
    and rest: "\<forall>c \<in> set cs. patches_key imp (module, pre @ [l]) c"
      "all_returned imp cs (snd (exec imp c t))"
    by simp_all
  from patch_step [OF pk ret Cons.prems(4) Cons.prems(3) walk0 v0]
  obtain y where y: "\<forall>q. y \<noteq> Obj q"
    and hy: "\<forall>q a. map_of (heap (snd (exec imp c t)) q) a =
                map_of ((h0(r := AList.update l y (h0 r))) q) a"
    by blast
  from y have y': "y = v \<or> (\<forall>q. y \<noteq> Obj q)" by simp
  from Cons.IH [OF rest y' hy] patch_keeps_store [OF pk, of t]
  show ?case by simp
qed


lemma hook_heap: "heap (snd (hook imp target_path s)) = heap s"
  by (simp add: hook_def split: sum.split prod.split)

lemma restore_Returned:
  assumes "resolve_target imp target_path = Inr (module, attr_path)"
    and "restore imp target_path t = (Returned, s3)"
  shows "\<exists>original h. map_of (originals t) (module, attr_path) = Some original
     \<and> set_attr (heap t) (Obj module) attr_path original = Inr h
     \<and> heap s3 = h
     \<and> originals s3 = AList.delete (module, attr_path) (originals t)
     \<and> hooked s3 = hooked t - {target_path}"
proof (cases "map_of (originals t) (module, attr_path)")
  case None
  with assms show ?thesis by (simp add: restore_def)
next
  case (Some original)
  with assms show ?thesis
    by (cases "set_attr (heap t) (Obj module) attr_path original")
      (auto simp: restore_def)
qed

subsection \<open>What each call does to the store and the hooked set\<close>

lemma hook_store:
  "snd (hook imp target_path s) = s
   \<or> (\<exists>key v. resolve_target imp target_path = Inr key
        \<and> originals (snd (hook imp target_path s)) = AList.update key v (originals s)
        \<and> hooked (snd (hook imp target_path s)) = insert target_path (hooked s))"
proof (cases "resolve_target imp target_path")
  case (Inl e)
  then show ?thesis by (simp add: hook_def)
next
  case (Inr p)
  obtain module attr_path where p: "p = (module, attr_path)" by (cases p)
  show ?thesis
  proof (cases "map_of (originals s) (module, attr_path)")
    case None
    show ?thesis
    proof (cases "get_attr (heap s) (Obj module) attr_path")
      case (Inl e)
      with \<open>resolve_target imp target_path = Inr p\<close> p None show ?thesis
        by (simp add: hook_def)
    next
      case (Inr v)
      with \<open>resolve_target imp target_path = Inr p\<close> p None
      have "originals (snd (hook imp target_path s)) =
              AList.update (module, attr_path) v (originals s)
          \<and> hooked (snd (hook imp target_path s)) = insert target_path (hooked s)"
        by (simp add: hook_def)
      with \<open>resolve_target imp target_path = Inr p\<close> p show ?thesis by blast
    qed
  next
    case (Some a)
    with Inr p show ?thesis by (simp add: hook_def)
  qed
qed

lemma unhook_target_store:
  "snd (unhook_target imp target_path s) = s
   \<or> (\<exists>key. resolve_target imp target_path = Inr key
        \<and> originals (snd (unhook_target imp target_path s)) = AList.delete key (originals s)
        \<and> hooked (snd (unhook_target imp target_path s)) = hooked s - {target_path})"
proof (cases "resolve_target imp target_path")
  case (Inl e)
  then show ?thesis by (simp add: unhook_target_def)
next
  case (Inr p)
  obtain module attr_path where p: "p = (module, attr_path)" by (cases p)
  with Inr show ?thesis by (simp add: unhook_target_def)
qed

lemma restore_store:
  assumes "fst (restore imp target_path s) = Returned"
  shows "\<exists>key. resolve_target imp target_path = Inr key
        \<and> originals (snd (restore imp target_path s)) = AList.delete key (originals s)
        \<and> hooked (snd (restore imp target_path s)) = hooked s - {target_path}"
proof (cases "resolve_target imp target_path")
  case (Inl e)
  with assms show ?thesis by (simp add: restore_def)
next
  case (Inr p)
  obtain module attr_path where p: "p = (module, attr_path)" by (cases p)
  from assms have "restore imp target_path s = (Returned, snd (restore imp target_path s))"
    by (cases "restore imp target_path s") simp
  from restore_Returned [OF _ this, of module attr_path] Inr p show ?thesis by auto
qed

lemma unhook_store:
  "hooked (snd (unhook s)) = {}
   \<or> (originals (snd (unhook s)) = originals s \<and> hooked (snd (unhook s)) = hooked s)"
proof (cases "originals s = []")
  case True
  then show ?thesis by (simp add: unhook_def)
next
  case False
  obtain out s1 where l: "unhook_loop (originals s) s = (out, s1)"
    by (cases "unhook_loop (originals s) s")
  with unhook_loop_frame [of "originals s" s] False show ?thesis
    by (cases out) (simp_all add: unhook_def)
qed

lemma delete_removes_only:
  assumes inv: "\<forall>p \<in> hooked s. \<exists>key. resolve_target imp p = Inr key \<and> map_of (originals s) key \<noteq> None"
    and na: "\<forall>p' \<in> hooked s. resolve_target imp p' = resolve_target imp target_path \<longrightarrow> p' = target_path"
    and key: "resolve_target imp target_path = Inr key"
  shows "\<forall>p \<in> hooked s - {target_path}.
           \<exists>key'. resolve_target imp p = Inr key' \<and> map_of (AList.delete key (originals s)) key' \<noteq> None"
proof
  fix p assume p: "p \<in> hooked s - {target_path}"
  with inv obtain key' where k: "resolve_target imp p = Inr key'" "map_of (originals s) key' \<noteq> None"
    by blast
  from p na key k(1) have "key' \<noteq> key" by auto
  with k show "\<exists>key'. resolve_target imp p = Inr key' \<and> map_of (AList.delete key (originals s)) key' \<noteq> None"
    by simp
qed

subsection \<open>The small process, evaluated\<close>

lemmas demo_defs = demo_import_def demo_heap_def demo_state_def resolve_target_def py_split_def

lemma demo_resolve [simp]:
  "resolve_target demo_import ''os.path.join'' = Inr (3, [''join''])"
  "resolve_target demo_import ''posixpath.join'' = Inr (3, [''join''])"
  "resolve_target demo_import ''os'' = Inr (2, [])"
  "resolve_target demo_import [] = Inl (OtherException ''ValueError'')"
  "resolve_target demo_import ''asyncio.windows_events'' = Inl (OtherException ''ImportError'')"
  by (simp_all add: demo_defs)

lemma demo_hook_join:
  "hook demo_import ''os.path.join'' demo_state =
     (Returned, \<lparr>originals = [((3, [''join'']), Obj 11)], hooked = {''os.path.join''},
        heap = demo_heap, stdout = ''[HooksNotice] Hooked os.path.join'' @ [CHR 0x0A],
        WrapperinitEnd = False\<rparr>)"
  by (simp add: hook_def demo_state_def demo_heap_def log_def py_print_def)

lemma demo_hooked_eq:
  "demo_hooked =
     \<lparr>originals = [((3, [''join'']), Obj 11)], hooked = {''os.path.join''},
        heap = demo_heap, stdout = ''[HooksNotice] Hooked os.path.join'' @ [CHR 0x0A],
        WrapperinitEnd = False\<rparr>"
  by (simp add: demo_hooked_def demo_hook_join)

lemma demo_patch_print:
  "patch_print demo_import ''os.path.join'' ''hi'' demo_hooked = (Returned, demo_patched)"
  by (simp add: demo_patched_def patch_print_def demo_hooked_eq set_attr_def demo_heap_def)

lemma demo_patched_fields:
  "originals demo_patched = [((3, [''join'']), Obj 11)]"
  "hooked demo_patched = {''os.path.join''}"
  "heap demo_patched 3 = [(''__name__'', Str ''posixpath''), (''join'', Closure ''hi'' (Obj 11))]"
  by (simp_all add: demo_patched_def patch_print_def demo_hooked_eq set_attr_def demo_heap_def)

section \<open>The claims\<close>

subsection \<open>C1: removing all hooks\<close>

text \<open>
  C1 says that \<^verbatim>\<open>unhook\<close> on a non-empty store writes every stored original back
  before it clears the store. The method never calls \<^verbatim>\<open>_set_attr\<close>: after
  \<^verbatim>\<open>hook\<close> and \<^verbatim>\<open>patch_print\<close> on \<^verbatim>\<open>os.path.join\<close> the store holds the original
  (object 11), \<^verbatim>\<open>unhook\<close> returns, and the attribute is still the wrapper.
\<close>

theorem unhook_writes_back_counterexample:
  "map_of (originals demo_patched) (3, [''join'']) = Some (Obj 11)
   \<and> fst (unhook demo_patched) = Returned
   \<and> get_attr (heap (snd (unhook demo_patched))) (Obj 3) [''join''] =
       Inr (Closure ''hi'' (Obj 11))"
  by (simp add: unhook_def demo_patched_fields)

text \<open>
  C1, as the code has it: \<^verbatim>\<open>unhook\<close> fails with \<^verbatim>\<open>NotPatched\<close> and changes
  nothing when the store is empty; when the store is not empty and every module of a
  stored key has its \<^verbatim>\<open>__name__\<close>, it returns, clears every record and every hooked
  marker, and leaves every attribute dictionary as it was.
\<close>

theorem unhook_clears_without_writing_back:
  assumes "\<forall>item \<in> set (originals s). map_of (heap s (fst (fst item))) ''__name__'' \<noteq> None"
  shows "if originals s = []
         then unhook s = (Raised (NotPatchedError ''No hooks to remove.''), s)
              \<and> code (NotPatchedError ''No hooks to remove.'') = Some ''NotPatched''
         else fst (unhook s) = Returned
              \<and> originals (snd (unhook s)) = []
              \<and> hooked (snd (unhook s)) = {}
              \<and> heap (snd (unhook s)) = heap s"
proof (cases "originals s = []")
  case True
  then show ?thesis by (simp add: unhook_def)
next
  case False
  from assms have r: "fst (unhook_loop (originals s) s) = Returned"
    by (rule unhook_loop_Returned)
  obtain s1 where l: "unhook_loop (originals s) s = (Returned, s1)"
    using r by (cases "unhook_loop (originals s) s") simp
  from unhook_loop_frame [of "originals s" s] l have "heap s1 = heap s" by simp
  with False l show ?thesis by (simp add: unhook_def)
qed

theorem unhook_clears_without_writing_back_witness:
  "fst (unhook demo_patched) = Returned
   \<and> originals (snd (unhook demo_patched)) = []
   \<and> hooked (snd (unhook demo_patched)) = {}
   \<and> heap (snd (unhook demo_patched)) = heap demo_patched
   \<and> unhook demo_state = (Raised (NotPatchedError ''No hooks to remove.''), demo_state)"
proof -
  have a: "\<forall>item \<in> set (originals demo_patched).
      map_of (heap demo_patched (fst (fst item))) ''__name__'' \<noteq> None"
    by (simp add: demo_patched_fields)
  have b: "\<forall>item \<in> set (originals demo_state).
      map_of (heap demo_state (fst (fst item))) ''__name__'' \<noteq> None"
    by (simp add: demo_state_def)
  have c: "originals demo_patched \<noteq> []" "originals demo_state = []"
    by (simp_all add: demo_patched_fields demo_state_def)
  show ?thesis
    using unhook_clears_without_writing_back [OF a] unhook_clears_without_writing_back [OF b] c
    by simp
qed

subsection \<open>C2: the longest importable prefix\<close>




subsection \<open>C3: hook, patch, restore\<close>

text \<open>
  C3 says that \<^verbatim>\<open>hook\<close> followed by \<^verbatim>\<open>restore\<close> on any resolvable path leaves no
  record and no hooked marker. For the path \<^verbatim>\<open>os\<close>, which resolves to the module
  itself, \<^verbatim>\<open>hook\<close> returns and \<^verbatim>\<open>restore\<close> raises \<^verbatim>\<open>IndexError\<close> in
  \<^verbatim>\<open>_set_attr\<close>, after the record has been popped and before the marker is discarded:
  the marker stays in the hooked set.
\<close>

theorem restore_module_only_path_failing_input:
  "fst (hook demo_import ''os'' demo_state) = Returned
   \<and> fst (restore demo_import ''os'' (snd (hook demo_import ''os'' demo_state))) = Raised IndexError
   \<and> ''os'' \<in> hooked (snd (restore demo_import ''os'' (snd (hook demo_import ''os'' demo_state))))"
  by (simp add: hook_def restore_def set_attr_def demo_state_def)

text \<open>
  Apart from that input the property of C3 holds: whenever \<^verbatim>\<open>hook\<close> returns, every
  patch on the key returns and \<^verbatim>\<open>restore\<close> returns, the live attribute reads as it
  did before the hook, whatever the patches wrote, the key has no record and the path is
  not in the hooked set.
\<close>

theorem hook_patch_restore_round_trip:
  assumes res: "resolve_target imp target_path = Inr (module, attr_path)"
    and hk: "hook imp target_path s = (Returned, s1)"
    and pk: "\<forall>c \<in> set cs. patches_key imp (module, attr_path) c"
    and ar: "all_returned imp cs s1"
    and rs: "restore imp target_path (run imp cs s1) = (Returned, s3)"
  shows "get_attr (heap s3) (Obj module) attr_path = get_attr (heap s) (Obj module) attr_path
       \<and> map_of (originals s3) (module, attr_path) = None
       \<and> target_path \<notin> hooked s3"
proof -
  from hook_Returned_record [OF hk] res obtain v0 where
    g0: "get_attr (heap s) (Obj module) attr_path = Inr v0"
    and o1: "map_of (originals s1) (module, attr_path) = Some v0"
    by auto
  from hk hook_heap [of imp target_path s] have h1: "heap s1 = heap s" by simp
  from restore_Returned [OF res rs] obtain original h where
    ro: "map_of (originals (run imp cs s1)) (module, attr_path) = Some original"
    and set: "set_attr (heap (run imp cs s1)) (Obj module) attr_path original = Inr h"
    and h3: "heap s3 = h"
    and o3: "originals s3 = AList.delete (module, attr_path) (originals (run imp cs s1))"
    and k3: "hooked s3 = hooked (run imp cs s1) - {target_path}"
    by blast
  from o3 have c2: "map_of (originals s3) (module, attr_path) = None"
    by (simp add: map_of_delete_same)
  from k3 have c3: "target_path \<notin> hooked s3" by simp
  from set have ne: "attr_path \<noteq> []" using set_attr_Inr by blast
  define pre where "pre = butlast attr_path"
  define l where "l = last attr_path"
  from ne have ap: "attr_path = pre @ [l]" by (simp add: pre_def l_def)
  from g0 obtain w where w: "get_attr (heap s) (Obj module) pre = Inr w"
    and gl: "getattr (heap s) w l = Inr v0"
    unfolding ap get_attr_append by (auto split: sum.splits)
  from gl obtain r where r: "w = Obj r" using getattr_Inr_Obj by blast
  from gl r have v0: "map_of (heap s r) l = Some v0" by (simp split: option.splits)
  from w r have walk0: "get_attr (heap s) (Obj module) pre = Inr (Obj r)" by simp
  have heq1: "\<forall>q a. map_of (heap s1 q) a =
      map_of (((heap s)(r := AList.update l v0 (heap s r))) q) a"
    unfolding h1 using v0 by (auto simp: AList.update_conv')
  from pk have pk': "\<forall>c \<in> set cs. patches_key imp (module, pre @ [l]) c" by (simp add: ap)
  have xv: "v0 = v0 \<or> (\<forall>q. v0 \<noteq> Obj q)" by simp
  from patches_run [OF walk0 v0 pk' ar xv heq1] obtain y where
    oo: "originals (run imp cs s1) = originals s1"
    and y: "y = v0 \<or> (\<forall>q. y \<noteq> Obj q)"
    and heq: "\<forall>q a. map_of (heap (run imp cs s1) q) a =
        map_of (((heap s)(r := AList.update l y (heap s r))) q) a"
    by blast
  from ro oo o1 have "original = v0" by simp
  with set ap have set': "set_attr (heap (run imp cs s1)) (Obj module) (pre @ [l]) v0 = Inr h"
    by simp
  from set_attr_step [OF heq y walk0 v0 set']
  have "\<forall>q a. map_of (h q) a = map_of (((heap s)(r := AList.update l v0 (heap s r))) q) a" .
  with v0 have "\<forall>q a. map_of (h q) a = map_of (heap s q) a"
    by (auto simp: AList.update_conv')
  then have "get_attr h (Obj module) attr_path = get_attr (heap s) (Obj module) attr_path"
    by (rule get_attr_cong)
  with h3 c2 c3 show ?thesis by simp
qed

theorem hook_patch_restore_round_trip_witness:
  "get_attr (heap (snd (restore demo_import ''os.path.join'' demo_patched))) (Obj 3) [''join''] =
     Inr (Obj 11)
   \<and> map_of (originals (snd (restore demo_import ''os.path.join'' demo_patched)))
       (3, [''join'']) = None
   \<and> ''os.path.join'' \<notin> hooked (snd (restore demo_import ''os.path.join'' demo_patched))"
proof -
  have r: "resolve_target demo_import ''os.path.join'' = Inr (3, [''join''])" by simp
  have h: "hook demo_import ''os.path.join'' demo_state = (Returned, demo_hooked)"
    by (simp add: demo_hook_join demo_hooked_eq)
  have k: "\<forall>c \<in> set [PatchPrint ''os.path.join'' ''hi'']. patches_key demo_import (3, [''join'']) c"
    by simp
  have a: "all_returned demo_import [PatchPrint ''os.path.join'' ''hi''] demo_hooked"
    by (simp add: demo_patch_print)
  have e: "run demo_import [PatchPrint ''os.path.join'' ''hi''] demo_hooked = demo_patched"
    by (simp add: demo_patch_print)
  have f: "fst (restore demo_import ''os.path.join'' demo_patched) = Returned"
    by (simp add: restore_def set_attr_def demo_patched_fields)
  have t: "restore demo_import ''os.path.join''
             (run demo_import [PatchPrint ''os.path.join'' ''hi''] demo_hooked) =
           (Returned, snd (restore demo_import ''os.path.join'' demo_patched))"
    unfolding e using f by (cases "restore demo_import ''os.path.join'' demo_patched") simp
  have g: "get_attr (heap demo_state) (Obj 3) [''join''] = Inr (Obj 11)"
    by (simp add: demo_state_def demo_heap_def)
  show ?thesis
    using hook_patch_restore_round_trip [OF r h k a t] g by simp
qed

subsection \<open>C4: the print wrapper\<close>



subsection \<open>C5: detaching\<close>



subsection \<open>C6: operations on a path without a record\<close>

text \<open>
  C6: on a resolvable path whose key has no record, \<^verbatim>\<open>patch_print\<close>,
  \<^verbatim>\<open>patch_function\<close>, \<^verbatim>\<open>restore\<close> and \<^verbatim>\<open>unhook_target\<close> each raise
  \<^verbatim>\<open>NotHookedError\<close>, whose code is \<^verbatim>\<open>NotHooked\<close>, and leave the whole state (the
  store, the hooked set, the attribute dictionaries, the output) as it was.
\<close>

theorem no_record_raises_NotHooked:
  assumes "resolve_target imp target_path = Inr (module, attr_path)"
    and "map_of (originals s) (module, attr_path) = None"
  shows "patch_print imp target_path message s = (Raised (NotHookedError target_path), s)
       \<and> patch_function imp target_path func s = (Raised (NotHookedError target_path), s)
       \<and> restore imp target_path s = (Raised (NotHookedError target_path), s)
       \<and> unhook_target imp target_path s = (Raised (NotHookedError target_path), s)
       \<and> code (NotHookedError target_path) = Some ''NotHooked''"
  using assms
  by (simp add: patch_print_def patch_function_def restore_def unhook_target_def)

theorem no_record_raises_NotHooked_witness:
  "patch_print demo_import ''os.path.join'' ''hi'' demo_state =
     (Raised (NotHookedError ''os.path.join''), demo_state)
   \<and> patch_function demo_import ''os.path.join'' (Obj 10) demo_state =
     (Raised (NotHookedError ''os.path.join''), demo_state)
   \<and> restore demo_import ''os.path.join'' demo_state =
     (Raised (NotHookedError ''os.path.join''), demo_state)
   \<and> unhook_target demo_import ''os.path.join'' demo_state =
     (Raised (NotHookedError ''os.path.join''), demo_state)"
proof -
  have r: "resolve_target demo_import ''os.path.join'' = Inr (3, [''join''])" by simp
  have n: "map_of (originals demo_state) (3, [''join'']) = None" by (simp add: demo_state_def)
  show ?thesis
    using no_record_raises_NotHooked [OF r n, of "''hi''" "Obj 10"] by simp
qed

subsection \<open>C7: hooking twice\<close>

text \<open>
  C7: after a \<^verbatim>\<open>hook\<close> that returned, and any further calls of \<^verbatim>\<open>hook\<close>,
  \<^verbatim>\<open>patch_print\<close> and \<^verbatim>\<open>patch_function\<close> (no \<^verbatim>\<open>restore\<close>, \<^verbatim>\<open>unhook_target\<close>
  or \<^verbatim>\<open>unhook\<close> in between), a \<^verbatim>\<open>hook\<close> on a path that resolves to the same key
  raises \<^verbatim>\<open>AlreadyHookedError\<close>, whose code is \<^verbatim>\<open>AlreadyHooked\<close>, and leaves the
  state, with the stored original and the hooked set, as it was.
\<close>

theorem second_hook_raises_AlreadyHooked:
  assumes "hook imp first_path s = (Returned, s1)"
    and "\<forall>c \<in> set cs. keeps_records c"
    and "resolve_target imp second_path = resolve_target imp first_path"
  shows "hook imp second_path (run imp cs s1) =
           (Raised (AlreadyHookedError second_path), run imp cs s1)
       \<and> code (AlreadyHookedError second_path) = Some ''AlreadyHooked''"
proof -
  from assms(1) obtain module attr_path v where
    r: "resolve_target imp first_path = Inr (module, attr_path)" and
    m: "map_of (originals s1) (module, attr_path) = Some v"
    using hook_Returned_record by blast
  from assms(2) m have "map_of (originals (run imp cs s1)) (module, attr_path) = Some v"
    by (rule run_keeps_record)
  with r assms(3) show ?thesis by (simp add: hook_def)
qed

theorem second_hook_raises_AlreadyHooked_witness:
  "hook demo_import ''posixpath.join''
     (run demo_import [PatchPrint ''os.path.join'' ''hi''] demo_hooked) =
   (Raised (AlreadyHookedError ''posixpath.join''),
    run demo_import [PatchPrint ''os.path.join'' ''hi''] demo_hooked)"
proof -
  have h: "hook demo_import ''os.path.join'' demo_state = (Returned, demo_hooked)"
    by (simp add: demo_hook_join demo_hooked_eq)
  have k: "\<forall>c \<in> set [PatchPrint ''os.path.join'' ''hi'']. keeps_records c" by simp
  have r: "resolve_target demo_import ''posixpath.join'' =
           resolve_target demo_import ''os.path.join''" by simp
  show ?thesis
    using second_hook_raises_AlreadyHooked [OF h k r] by simp
qed

subsection \<open>C8: no module found\<close>

text \<open>
  C8 says that \<^verbatim>\<open>_resolve_target\<close> fails with a module-not-found error whenever no
  candidate prefix imports, the empty path included. The empty path splits into the
  single part \<^verbatim>\<open>''\<close>; importing the empty name raises \<^verbatim>\<open>ValueError\<close>, which the
  loop does not catch.
\<close>

theorem empty_path_counterexample:
  "py_split CHR ''.'' [] = [[]]
   \<and> \<not> importable demo_import (py_join ''.'' (take 1 (py_split CHR ''.'' [])))
   \<and> resolve_target demo_import [] = Inl (OtherException ''ValueError'')"
  by (simp add: demo_defs importable_def)

text \<open>
  C8, as the code has it: when the import of every candidate prefix, from all the parts
  down to the first part alone, fails with \<^verbatim>\<open>ModuleNotFoundError\<close>,
  \<^verbatim>\<open>_resolve_target\<close> raises \<^verbatim>\<open>ModuleNotFoundError\<close> for the path.
\<close>

theorem resolve_target_module_not_found:
  assumes "parts = py_split CHR ''.'' target_path"
    and "\<forall>j. 0 < j \<and> j \<le> length parts \<longrightarrow> imp (py_join ''.'' (take j parts)) = ModuleNotFound"
  shows "resolve_target imp target_path =
           Inl (ModuleNotFoundError (''Cannot import module from '' @ target_path))"
  using assms resolve_loop_not_found [of "length parts" imp parts target_path]
  by (simp add: resolve_target_def)

theorem resolve_target_module_not_found_witness:
  "resolve_target demo_import ''nope.x'' =
     Inl (ModuleNotFoundError ''Cannot import module from nope.x'')"
proof -
  have p: "[''nope'', ''x''] = py_split CHR ''.'' ''nope.x''"
    by (simp add: py_split_def)
  have n: "\<forall>j. 0 < j \<and> j \<le> length [''nope'', ''x''] \<longrightarrow>
      demo_import (py_join ''.'' (take j [''nope'', ''x''])) = ModuleNotFound"
  proof (intro allI impI)
    fix j :: nat
    assume "0 < j \<and> j \<le> length [''nope'', ''x'']"
    then have "j = 1 \<or> j = 2" by auto
    then show "demo_import (py_join ''.'' (take j [''nope'', ''x''])) = ModuleNotFound"
      by (auto simp: demo_import_def)
  qed
  show ?thesis
    using resolve_target_module_not_found [OF p n] by simp
qed

subsection \<open>C9: hooked markers and records\<close>

text \<open>
  C9 says that every path in the hooked set has a record under its resolved key. After
  \<^verbatim>\<open>hook\<close> and \<^verbatim>\<open>restore\<close> on the module path \<^verbatim>\<open>os\<close> the marker is in the hooked
  set and the key has no record, because \<^verbatim>\<open>restore\<close> pops the record and then raises.
  The same state is reached without any exception when a key is hooked under one name and
  restored under another: \<^verbatim>\<open>os.path.join\<close> and \<^verbatim>\<open>posixpath.join\<close> resolve to one key.
\<close>

theorem hooked_without_record_failing_input:
  "resolve_target demo_import ''os'' = Inr (2, [])
   \<and> ''os'' \<in> hooked (run demo_import [Hook ''os'', Restore ''os''] demo_state)
   \<and> map_of (originals (run demo_import [Hook ''os'', Restore ''os''] demo_state)) (2, []) = None
   \<and> resolve_target demo_import ''os.path.join'' = Inr (3, [''join''])
   \<and> ''os.path.join'' \<in>
       hooked (run demo_import [Hook ''os.path.join'', Restore ''posixpath.join''] demo_state)
   \<and> map_of (originals
        (run demo_import [Hook ''os.path.join'', Restore ''posixpath.join''] demo_state))
       (3, [''join'']) = None"
  by (simp add: hook_def restore_def set_attr_def demo_state_def demo_heap_def)

text \<open>
  Those are the only two ways to break the property of C9. A call keeps it when it is not
  a \<^verbatim>\<open>restore\<close> that raises after the record is popped, and when the path of a
  \<^verbatim>\<open>restore\<close> or \<^verbatim>\<open>unhook_target\<close> is the only hooked path with its key.
\<close>

theorem hooked_records_preserved:
  assumes inv: "\<forall>p \<in> hooked s. \<exists>key. resolve_target imp p = Inr key \<and> map_of (originals s) key \<noteq> None"
    and wb: "\<forall>p. c = Restore p \<longrightarrow> fst (exec imp c s) = Returned \<or> snd (exec imp c s) = s"
    and na: "\<forall>p. c = Restore p \<or> c = UnhookTarget p \<longrightarrow>
               (\<forall>p' \<in> hooked s. resolve_target imp p' = resolve_target imp p \<longrightarrow> p' = p)"
  shows "\<forall>p \<in> hooked (snd (exec imp c s)).
           \<exists>key. resolve_target imp p = Inr key \<and> map_of (originals (snd (exec imp c s))) key \<noteq> None"
proof (cases c)
  case (Hook target_path)
  from hook_store [of imp target_path s] show ?thesis
  proof
    assume "snd (hook imp target_path s) = s"
    with inv Hook show ?thesis by simp
  next
    assume "\<exists>key v. resolve_target imp target_path = Inr key
        \<and> originals (snd (hook imp target_path s)) = AList.update key v (originals s)
        \<and> hooked (snd (hook imp target_path s)) = insert target_path (hooked s)"
    then obtain key v where k: "resolve_target imp target_path = Inr key"
      "originals (snd (hook imp target_path s)) = AList.update key v (originals s)"
      "hooked (snd (hook imp target_path s)) = insert target_path (hooked s)"
      by blast
    show ?thesis
    proof
      fix p assume "p \<in> hooked (snd (exec imp c s))"
      with Hook k(3) have "p = target_path \<or> p \<in> hooked s" by simp
      then show "\<exists>key. resolve_target imp p = Inr key
          \<and> map_of (originals (snd (exec imp c s))) key \<noteq> None"
      proof
        assume "p = target_path"
        with Hook k show ?thesis by (simp add: AList.update_conv')
      next
        assume "p \<in> hooked s"
        with inv obtain key' where "resolve_target imp p = Inr key'"
          "map_of (originals s) key' \<noteq> None" by blast
        with Hook k show ?thesis by (simp add: AList.update_conv')
      qed
    qed
  qed
next
  case (PatchPrint target_path message)
  with inv patch_print_keeps [of imp target_path message s] show ?thesis by simp
next
  case (PatchFunction target_path func)
  with inv patch_function_keeps [of imp target_path func s] show ?thesis by simp
next
  case (Restore target_path)
  from wb Restore have "fst (restore imp target_path s) = Returned
      \<or> snd (restore imp target_path s) = s" by simp
  then show ?thesis
  proof
    assume "fst (restore imp target_path s) = Returned"
    from restore_store [OF this] obtain key where k: "resolve_target imp target_path = Inr key"
      "originals (snd (restore imp target_path s)) = AList.delete key (originals s)"
      "hooked (snd (restore imp target_path s)) = hooked s - {target_path}"
      by blast
    from na Restore have "\<forall>p' \<in> hooked s.
        resolve_target imp p' = resolve_target imp target_path \<longrightarrow> p' = target_path" by simp
    from delete_removes_only [OF inv this k(1)] Restore k show ?thesis by simp
  next
    assume "snd (restore imp target_path s) = s"
    with inv Restore show ?thesis by simp
  qed
next
  case (UnhookTarget target_path)
  from unhook_target_store [of imp target_path s] show ?thesis
  proof
    assume "snd (unhook_target imp target_path s) = s"
    with inv UnhookTarget show ?thesis by simp
  next
    assume "\<exists>key. resolve_target imp target_path = Inr key
        \<and> originals (snd (unhook_target imp target_path s)) = AList.delete key (originals s)
        \<and> hooked (snd (unhook_target imp target_path s)) = hooked s - {target_path}"
    then obtain key where k: "resolve_target imp target_path = Inr key"
      "originals (snd (unhook_target imp target_path s)) = AList.delete key (originals s)"
      "hooked (snd (unhook_target imp target_path s)) = hooked s - {target_path}"
      by blast
    from na UnhookTarget have "\<forall>p' \<in> hooked s.
        resolve_target imp p' = resolve_target imp target_path \<longrightarrow> p' = target_path" by simp
    from delete_removes_only [OF inv this k(1)] UnhookTarget k show ?thesis by simp
  qed
next
  case Unhook
  from unhook_store [of s] inv Unhook show ?thesis by auto
qed

theorem hooked_records_preserved_witness:
  "\<forall>p \<in> hooked (snd (exec demo_import (UnhookTarget ''os.path.join'') demo_patched)).
     \<exists>key. resolve_target demo_import p = Inr key
       \<and> map_of (originals (snd (exec demo_import (UnhookTarget ''os.path.join'') demo_patched)))
            key \<noteq> None"
proof -
  have i: "\<forall>p \<in> hooked demo_patched.
      \<exists>key. resolve_target demo_import p = Inr key \<and> map_of (originals demo_patched) key \<noteq> None"
    by (simp add: demo_patched_fields)
  have w: "\<forall>p. UnhookTarget ''os.path.join'' = Restore p \<longrightarrow>
      fst (exec demo_import (UnhookTarget ''os.path.join'') demo_patched) = Returned
      \<or> snd (exec demo_import (UnhookTarget ''os.path.join'') demo_patched) = demo_patched"
    by simp
  have n: "\<forall>p. UnhookTarget ''os.path.join'' = Restore p
        \<or> UnhookTarget ''os.path.join'' = UnhookTarget p \<longrightarrow>
      (\<forall>p' \<in> hooked demo_patched.
         resolve_target demo_import p' = resolve_target demo_import p \<longrightarrow> p' = p)"
    by (simp add: demo_patched_fields)
  show ?thesis
    using hooked_records_preserved [OF i w n] .
qed

subsection \<open>C10: a path that resolves to a module\<close>




end
